theory Spec2Isabelle
  imports Main "HOL-Library.Sublist"
begin

section \<open>Data model\<close>

text \<open>
  The two copies of the component (\<^verbatim>\<open>src/react-code-standard/src/ReactBasics.tsx\<close> and
  \<^verbatim>\<open>src/unnamed/part_000\<close>) declare the same interfaces. A value that may be
  \<^verbatim>\<open>undefined\<close> at run time is an option, \<open>None\<close> standing for \<^verbatim>\<open>undefined\<close>:
  the optional field \<^verbatim>\<open>location?\<close>, the prop \<^verbatim>\<open>footerText: string | undefined\<close> and
  the optional prop \<^verbatim>\<open>show?\<close>. The field \<^verbatim>\<open>id\<close> is \<open>farm_id\<close> and the prop
  \<^verbatim>\<open>show\<close> is \<open>show_p\<close>, the source's names being taken in HOL and Isar. The numeric
  identifier is an integer, as the only identifiers of the source (1 and 2) are.
\<close>

record IFarms =
  name :: string
  farm_id :: int
  location :: "string option"

record Props =
  label :: string
  url :: string
  footerText :: "string option"
  show_p :: "bool option"

text \<open>A promise is settled when it is awaited: resolved with a value or rejected.\<close>

datatype 'a promise = Resolved 'a | Rejected string

type_synonym console = "string list"

text \<open>
  The contract of the remote call: a url in, a promise of an optional list of farms out.
  The call may write to the console.
\<close>

type_synonym remote = "string \<Rightarrow> console \<Rightarrow> IFarms list option promise \<times> console"

text \<open>
  What a render returns: \<^verbatim>\<open>null\<close> is \<open>None\<close>, a fragment is the list of its children.
  A paragraph carries its optional \<^verbatim>\<open>key\<close> and its text; a button carries its
  \<^verbatim>\<open>type\<close>, the handler of its click and its text.
\<close>

datatype handler = OnClick string

datatype element = P "string option" string | Button string handler string

datatype js_error = TypeError

text \<open>
  The hook state of one mounted component: the \<^verbatim>\<open>useState\<close> cell \<open>farms\<close>, the
  dependency arrays that the two \<^verbatim>\<open>useEffect\<close> calls saw at the last commit
  (\<open>None\<close> before the first commit), the promises awaited by suspended calls of
  \<^verbatim>\<open>fetchImportantData\<close> in the order of their calls, each with the outcome it will
  settle to, and the console. The cell holds a
  run-time value, so it is an option as well. \<open>setFarmsCalls\<close> counts the calls of the
  setter; the program never reads it.
\<close>

record component =
  farms :: "IFarms list option"
  fetchFarmsDeps :: "string list option"
  fetchDataDeps :: "string list option"
  pending :: "IFarms list option promise list"
  console :: console
  setFarmsCalls :: nat

section \<open>ReactBasics.tsx\<close>

definition azureFunctionCall :: remote where
  "azureFunctionCall u con =
     (Resolved (Some [\<lparr>name = ''farm2'', farm_id = 2, location = None\<rparr>]), con @ [u])"

definition isNonEmptyString :: "string option \<Rightarrow> bool" where
  "isNonEmptyString str = (case str of None \<Rightarrow> False | Some s \<Rightarrow> length s > 0)"

text \<open>The operator \<^verbatim>\<open>??\<close>: the right operand when the left one is \<^verbatim>\<open>undefined\<close>.\<close>

definition nullish :: "'a option \<Rightarrow> 'a option \<Rightarrow> 'a option" where
  "nullish a b = (case a of None \<Rightarrow> b | Some _ \<Rightarrow> a)"

definition setFarms :: "IFarms list option \<Rightarrow> component \<Rightarrow> component" where
  "setFarms v c = c\<lparr>farms := v, setFarmsCalls := Suc (setFarmsCalls c)\<rparr>"

definition initialComponent :: component where
  "initialComponent =
     \<lparr>farms = Some [], fetchFarmsDeps = None, fetchDataDeps = None, pending = [],
      console = [], setFarmsCalls = 0\<rparr>"

definition fetchFarms :: "component \<Rightarrow> component" where
  "fetchFarms c =
     (let results = [\<lparr>name = ''farm1'', farm_id = 1, location = None\<rparr>]
      in setFarms (Some results) c)"

text \<open>
  \<^verbatim>\<open>fetchImportantData\<close> is asynchronous. Up to its \<^verbatim>\<open>await\<close> it runs inside the
  effect: it calls the remote function and suspends on the promise. What follows the
  \<^verbatim>\<open>await\<close> runs later, with the settled promise: a rejection ends the function
  before the setter is reached, a value goes through \<^verbatim>\<open>?? []\<close> to the setter.
  The remote function is a parameter, the component's own being \<open>azureFunctionCall\<close>.
\<close>

definition fetchImportantData_start :: "remote \<Rightarrow> string \<Rightarrow> component \<Rightarrow> component" where
  "fetchImportantData_start call u c =
     (let (pr, con) = call u (console c)
      in c\<lparr>pending := pending c @ [pr], console := con\<rparr>)"

definition fetchImportantData_resume ::
    "IFarms list option promise \<Rightarrow> component \<Rightarrow> component" where
  "fetchImportantData_resume pr c =
     (case pr of
        Rejected e \<Rightarrow> c
      | Resolved v \<Rightarrow> (let importantData = nullish v (Some []) in setFarms importantData c))"

text \<open>The whole call, when nothing else runs between its two halves.\<close>

definition fetchImportantData :: "remote \<Rightarrow> string \<Rightarrow> component \<Rightarrow> component" where
  "fetchImportantData call u c =
     (let (pr, con) = call u (console c)
      in fetchImportantData_resume pr (c\<lparr>console := con\<rparr>))"

definition getFooterText :: "Props \<Rightarrow> string" where
  "getFooterText props =
     (if isNonEmptyString (footerText props) then the (footerText props) else ''no footer'')"

text \<open>
  The value the component function returns, from its props and the content of the state
  cell. \<^verbatim>\<open>farms.map\<close> on \<^verbatim>\<open>undefined\<close> throws, and is only reached when \<^verbatim>\<open>show\<close>
  holds.
\<close>

definition MyFunctionComponent ::
    "Props \<Rightarrow> IFarms list option \<Rightarrow> js_error + element list option" where
  "MyFunctionComponent props cell =
     (let show = (case show_p props of None \<Rightarrow> True | Some b \<Rightarrow> b)
      in if show
         then (case cell of
                 None \<Rightarrow> Inl TypeError
               | Some fs \<Rightarrow>
                   Inr (Some (map (\<lambda>farm. P None (name farm)) fs
                              @ [P None (getFooterText props)])))
         else Inr None)"

section \<open>Effects and the life of the component\<close>

text \<open>
  The hooks are the framework's, not the repository's; what the component relies on is
  written out here. An effect runs after a commit when its dependency array differs
  from the one of the previous commit, and after the first commit. The dependencies
  here are strings, which the framework compares by value. A call of the setter takes
  effect at once in the model; the render it schedules has the props of the previous one
  and so runs no effect.
\<close>

definition depsChanged :: "string list option \<Rightarrow> string list \<Rightarrow> bool" where
  "depsChanged prev deps = (case prev of None \<Rightarrow> True | Some old \<Rightarrow> old \<noteq> deps)"

text \<open>
  The effects of one commit, in the order of the \<^verbatim>\<open>useEffect\<close> calls: \<open>fetchFarms\<close> with
  the dependencies \<^verbatim>\<open>[]\<close>, then the call of \<^verbatim>\<open>fetchImportantData(url)\<close> with the
  dependencies \<^verbatim>\<open>[url]\<close>.
\<close>

definition commitEffects :: "remote \<Rightarrow> Props \<Rightarrow> component \<Rightarrow> component" where
  "commitEffects call props c =
     (let c1 = (if depsChanged (fetchFarmsDeps c) [] then fetchFarms c else c);
          c2 = (if depsChanged (fetchDataDeps c) [url props]
                then fetchImportantData_start call (url props) c1 else c1)
      in c2\<lparr>fetchFarmsDeps := Some [], fetchDataDeps := Some [url props]\<rparr>)"

text \<open>
  The entry point wraps the component in \<^verbatim>\<open>StrictMode\<close>. In a development build the
  framework then runs every effect of the mount a second time, whatever its
  dependencies; the effects here return no cleanup, and the state is kept. A
  production build does not repeat them.
\<close>

datatype build = Production | Development

definition strictEffects :: "remote \<Rightarrow> Props \<Rightarrow> component \<Rightarrow> component" where
  "strictEffects call props c = fetchImportantData_start call (url props) (fetchFarms c)"

text \<open>
  A suspended call of \<^verbatim>\<open>fetchImportantData\<close> resumes when its promise settles. The
  code neither cancels a call nor orders the calls, so any suspended call may be the
  next to resume: \<open>settle i\<close> resumes the one at position \<open>i\<close>. A remote function that
  returns a promise already resolved, as \<open>azureFunctionCall\<close> does, has its calls resume
  in the order they were made, which is \<open>settle 0\<close> each time.
\<close>

definition settle :: "nat \<Rightarrow> component \<Rightarrow> component" where
  "settle i c =
     (if i < length (pending c)
      then fetchImportantData_resume (pending c ! i)
             (c\<lparr>pending := take i (pending c) @ drop (Suc i) (pending c)\<rparr>)
      else c)"

text \<open>
  What happens to a component: it is rendered with some props and committed (the first
  time is the mount), the effects are repeated for \<^verbatim>\<open>StrictMode\<close>, or a suspended call
  resumes.
\<close>

datatype event = Render Props | Remount Props | Settle nat

fun step :: "remote \<Rightarrow> component \<Rightarrow> event \<Rightarrow> component" where
  "step call c (Render props) = commitEffects call props c"
| "step call c (Remount props) = strictEffects call props c"
| "step call c (Settle i) = settle i c"

definition run :: "remote \<Rightarrow> event list \<Rightarrow> component \<Rightarrow> component" where
  "run call evs c = foldl (step call) c evs"

text \<open>The mount: the first commit, and in a development build the repetition of its effects.\<close>

definition mount :: "build \<Rightarrow> remote \<Rightarrow> Props \<Rightarrow> component" where
  "mount b call props =
     (let c = commitEffects call props initialComponent
      in case b of Production \<Rightarrow> c | Development \<Rightarrow> strictEffects call props c)"

text \<open>The url of the last render of a sequence of events that follows a render with \<open>u\<close>.\<close>

fun lastUrl :: "string \<Rightarrow> event list \<Rightarrow> string" where
  "lastUrl u [] = u"
| "lastUrl u (Render props # evs) = lastUrl (url props) evs"
| "lastUrl u (Remount props # evs) = lastUrl u evs"
| "lastUrl u (Settle i # evs) = lastUrl u evs"

text \<open>
  With the component's own remote function every suspended call awaits the same batch,
  whatever the events so far.
\<close>

definition awaitsFarm2 :: "component \<Rightarrow> bool" where
  "awaitsFarm2 c = list_all (\<lambda>pr. pr = Resolved (Some [\<lparr>name = ''farm2'', farm_id = 2, location = None\<rparr>])) (pending c)"

text \<open>The text shown by an element, and whether some element of a render shows a text.\<close>

fun textOf :: "element \<Rightarrow> string" where
  "textOf (P k t) = t"
| "textOf (Button ty h t) = t"

definition showsText :: "string \<Rightarrow> js_error + element list option \<Rightarrow> bool" where
  "showsText s out =
     (case out of
        Inl e \<Rightarrow> False
      | Inr None \<Rightarrow> False
      | Inr (Some els) \<Rightarrow> list_ex (\<lambda>el. sublist s (textOf el)) els)"

section \<open>The second copy of the component (part 000)\<close>

definition isNonEmptyString_part000 :: "string option \<Rightarrow> bool" where
  "isNonEmptyString_part000 str = (case str of None \<Rightarrow> False | Some s \<Rightarrow> length s > 0)"

definition getFooterText_part000 :: "Props \<Rightarrow> string" where
  "getFooterText_part000 props =
     (if isNonEmptyString_part000 (footerText props) then the (footerText props)
      else ''no footer'')"

text \<open>
  The button's \<^verbatim>\<open>onClick\<close> is \<open>OnClick v\<close>, an arrow function that calls
  \<open>onClickHandler v\<close>.
\<close>

definition onClickHandler :: "string \<Rightarrow> console \<Rightarrow> console" where
  "onClickHandler v con = con @ [v]"

text \<open>The decimal digits of an array index, for the template literal of the key.\<close>

fun string_of_index :: "nat \<Rightarrow> string" where
  "string_of_index n =
     (if n < 10 then [char_of (48 + n)]
      else string_of_index (n div 10) @ [char_of (48 + n mod 10)])"

definition MyFunctionComponent_part000 ::
    "Props \<Rightarrow> IFarms list option \<Rightarrow> js_error + element list option" where
  "MyFunctionComponent_part000 props cell =
     (let show = (case show_p props of None \<Rightarrow> True | Some b \<Rightarrow> b)
      in if show
         then (case cell of
                 None \<Rightarrow> Inl TypeError
               | Some fs \<Rightarrow>
                   Inr (Some (map (\<lambda>(index, farm).
                                      P (Some (''react-basics-'' @ string_of_index index))
                                        (name farm))
                                (enumerate 0 fs)
                              @ [Button ''button'' (OnClick ''click'') ''Click me'',
                                 P None (getFooterText_part000 props)])))
         else Inr None)"

section \<open>The entry point (part 001)\<close>

definition index_props :: Props where
  "index_props =
     \<lparr>label = ''This is the code quality repo'', url = ''www.google.com'',
      footerText = Some ''This is the footer'', show_p = None\<rparr>"

section \<open>Rendering\<close>

lemma getFooterText_cases:
  "getFooterText props =
     (case footerText props of None \<Rightarrow> ''no footer''
      | Some s \<Rightarrow> if s = [] then ''no footer'' else s)"
  by (simp add: getFooterText_def isNonEmptyString_def split: option.split)

lemma render_shown:
  "show_p props \<noteq> Some False \<Longrightarrow>
   MyFunctionComponent props (Some fs) =
     Inr (Some (map (\<lambda>farm. P None (name farm)) fs @ [P None (getFooterText props)]))"
  by (cases "show_p props") (auto simp: MyFunctionComponent_def)

lemma render_hidden:
  "show_p props = Some False \<Longrightarrow> MyFunctionComponent props cell = Inr None"
  by (simp add: MyFunctionComponent_def)

lemma render_null_iff:
  "MyFunctionComponent props cell = Inr None \<longleftrightarrow> show_p props = Some False"
  by (cases "show_p props"; cases cell) (auto simp: MyFunctionComponent_def)

lemma render_part000_null_iff:
  "MyFunctionComponent_part000 props cell = Inr None \<longleftrightarrow> show_p props = Some False"
  by (cases "show_p props"; cases cell) (auto simp: MyFunctionComponent_part000_def)

lemma render_part000_shown:
  "show_p props \<noteq> Some False \<Longrightarrow>
   MyFunctionComponent_part000 props (Some fs) =
     Inr (Some (map (\<lambda>(index, farm).
                        P (Some (''react-basics-'' @ string_of_index index)) (name farm))
                  (enumerate 0 fs)
                @ [Button ''button'' (OnClick ''click'') ''Click me'',
                   P None (getFooterText_part000 props)]))"
  by (cases "show_p props") (auto simp: MyFunctionComponent_part000_def)

lemma keyed_paragraph_texts:
  "map textOf (map (\<lambda>(index, farm). P (Some (k index)) (name farm)) (enumerate n fs))
     = map name fs"
  by (induction fs arbitrary: n) simp_all

lemma render_defined:
  "cell \<noteq> None \<Longrightarrow> MyFunctionComponent props cell \<noteq> Inl TypeError"
  by (cases "show_p props"; cases cell) (auto simp: MyFunctionComponent_def)

text \<open>
  C1. When \<^verbatim>\<open>show\<close> is true or omitted, the last paragraph of the render holds the
  footer text, which is the prop \<^verbatim>\<open>footerText\<close> when that is a string of positive
  length and the placeholder \<^verbatim>\<open>no footer\<close> when it is undefined or empty:
  \<open>getFooterText\<close> is \<^verbatim>\<open>footerText\<close> if \<open>isNonEmptyString\<close> holds of it, else the
  placeholder.
\<close>

theorem footer_text:
  "getFooterText props =
     (if isNonEmptyString (footerText props) then the (footerText props) else ''no footer'')
   \<and> (isNonEmptyString (footerText props) \<longleftrightarrow> (\<exists>s. footerText props = Some s \<and> 0 < length s))
   \<and> (footerText props = None \<or> footerText props = Some [] \<longrightarrow>
        getFooterText props = ''no footer'')
   \<and> (\<forall>s. footerText props = Some s \<and> 0 < length s \<longrightarrow> getFooterText props = s)
   \<and> (show_p props \<noteq> Some False \<longrightarrow>
        (\<exists>ps. MyFunctionComponent props (Some fs) =
                Inr (Some (ps @ [P None (getFooterText props)]))))"
  using render_shown [of props fs]
  by (auto simp: getFooterText_cases isNonEmptyString_def split: option.splits)

theorem footer_text_witness:
  "show_p index_props \<noteq> Some False
   \<and> footerText index_props = Some ''This is the footer''
   \<and> getFooterText index_props = ''This is the footer''
   \<and> getFooterText (index_props\<lparr>footerText := Some []\<rparr>) = ''no footer''
   \<and> getFooterText (index_props\<lparr>footerText := None\<rparr>) = ''no footer''
   \<and> MyFunctionComponent index_props (Some []) =
       Inr (Some ([] @ [P None ''This is the footer'']))"
  using footer_text [of index_props "[]"]
    footer_text [of "index_props\<lparr>footerText := Some []\<rparr>" "[]"]
    footer_text [of "index_props\<lparr>footerText := None\<rparr>" "[]"]
  by (simp add: index_props_def MyFunctionComponent_def getFooterText_def isNonEmptyString_def)

text \<open>
  C2. The component returns \<^verbatim>\<open>null\<close> when the prop \<^verbatim>\<open>show\<close> is false, whatever the
  state; when \<^verbatim>\<open>show\<close> is true or omitted it returns the whole output, the paragraphs
  of the farms followed by the footer.
\<close>

theorem show_flag:
  "(show_p props = Some False \<longrightarrow> MyFunctionComponent props cell = Inr None)
   \<and> (show_p props = Some True \<or> show_p props = None \<longrightarrow>
        MyFunctionComponent props (Some fs) =
          Inr (Some (map (\<lambda>farm. P None (name farm)) fs @ [P None (getFooterText props)])))"
  by (auto simp: render_hidden render_shown)

theorem show_flag_witness:
  "show_p (index_props\<lparr>show_p := Some False\<rparr>) = Some False
   \<and> MyFunctionComponent (index_props\<lparr>show_p := Some False\<rparr>)
        (Some [\<lparr>name = ''farm2'', farm_id = 2, location = None\<rparr>]) = Inr None
   \<and> show_p index_props = None
   \<and> MyFunctionComponent index_props (Some [\<lparr>name = ''farm2'', farm_id = 2, location = None\<rparr>]) =
       Inr (Some [P None ''farm2'', P None ''This is the footer''])
   \<and> MyFunctionComponent (index_props\<lparr>show_p := Some True\<rparr>) (Some []) =
       Inr (Some [P None ''This is the footer''])"
  using show_flag [of "index_props\<lparr>show_p := Some False\<rparr>"
      "Some [\<lparr>name = ''farm2'', farm_id = 2, location = None\<rparr>]"]
    show_flag [of index_props _ "[\<lparr>name = ''farm2'', farm_id = 2, location = None\<rparr>]"]
    show_flag [of "index_props\<lparr>show_p := Some True\<rparr>" _ "[]"]
  by (simp add: index_props_def getFooterText_def isNonEmptyString_def)

text \<open>
  C7. When \<^verbatim>\<open>show\<close> is true or omitted, the output has one paragraph for each farm of
  the list, in the order of the list and before the footer, and the paragraph of a farm
  holds its name. The identifier and the location of a farm are not displayed: changing
  them leaves the output as it is.
\<close>

theorem farm_paragraphs:
  assumes "show_p props \<noteq> Some False"
  shows "\<exists>els. MyFunctionComponent props (Some fs) = Inr (Some els)
     \<and> length els = Suc (length fs)
     \<and> butlast els = map (\<lambda>farm. P None (name farm)) fs
     \<and> (\<forall>i < length fs. els ! i = P None (name (fs ! i)))
     \<and> MyFunctionComponent props
          (Some (map (\<lambda>farm. farm\<lparr>farm_id := i farm, location := l farm\<rparr>) fs)) = Inr (Some els)"
  using assms by (simp add: render_shown nth_append comp_def)

theorem farm_paragraphs_witness:
  "show_p index_props \<noteq> Some False
   \<and> MyFunctionComponent index_props
         (Some [\<lparr>name = ''farm1'', farm_id = 1, location = None\<rparr>,
                \<lparr>name = ''farm2'', farm_id = 2, location = Some ''north''\<rparr>]) =
       Inr (Some [P None ''farm1'', P None ''farm2'', P None ''This is the footer''])"
  using farm_paragraphs [of index_props
      "[\<lparr>name = ''farm1'', farm_id = 1, location = None\<rparr>,
        \<lparr>name = ''farm2'', farm_id = 2, location = Some ''north''\<rparr>]"]
  by (simp add: index_props_def MyFunctionComponent_def getFooterText_def isNonEmptyString_def)

text \<open>
  C10. The two copies of the component agree on the footer and on visibility:
  \<^verbatim>\<open>getFooterText\<close> returns the same string in both; each of them returns
  \<^verbatim>\<open>null\<close> exactly when the prop \<^verbatim>\<open>show\<close> is false; and when \<^verbatim>\<open>show\<close> is true
  or omitted each of them returns a fragment whose last element is the paragraph of that
  footer text, after one paragraph for each farm, with the same names in the same order
  (the second copy gives the paragraphs keys and puts a button before the footer).
\<close>

theorem copies_agree:
  "getFooterText props = getFooterText_part000 props
   \<and> (MyFunctionComponent props cell = Inr None \<longleftrightarrow> show_p props = Some False)
   \<and> (MyFunctionComponent_part000 props cell = Inr None \<longleftrightarrow> show_p props = Some False)
   \<and> (MyFunctionComponent props cell = Inr None
        \<longleftrightarrow> MyFunctionComponent_part000 props cell = Inr None)
   \<and> (show_p props \<noteq> Some False \<longrightarrow>
        MyFunctionComponent props (Some fs) =
          Inr (Some (map (\<lambda>farm. P None (name farm)) fs @ [P None (getFooterText props)]))
        \<and> MyFunctionComponent_part000 props (Some fs) =
          Inr (Some (map (\<lambda>(index, farm).
                             P (Some (''react-basics-'' @ string_of_index index)) (name farm))
                       (enumerate 0 fs)
                     @ [Button ''button'' (OnClick ''click'') ''Click me'',
                        P None (getFooterText props)]))
        \<and> (\<exists>els els'. MyFunctionComponent props (Some fs) = Inr (Some els)
              \<and> MyFunctionComponent_part000 props (Some fs) = Inr (Some els')
              \<and> last els = P None (getFooterText props)
              \<and> last els' = P None (getFooterText props)
              \<and> map textOf (butlast els) = map name fs
              \<and> map textOf (butlast (butlast els')) = map name fs))"
proof -
  have footer: "getFooterText props = getFooterText_part000 props"
    by (simp add: getFooterText_def getFooterText_part000_def isNonEmptyString_def
        isNonEmptyString_part000_def)
  have shown: "show_p props \<noteq> Some False \<longrightarrow>
        MyFunctionComponent props (Some fs) =
          Inr (Some (map (\<lambda>farm. P None (name farm)) fs @ [P None (getFooterText props)]))
        \<and> MyFunctionComponent_part000 props (Some fs) =
          Inr (Some (map (\<lambda>(index, farm).
                             P (Some (''react-basics-'' @ string_of_index index)) (name farm))
                       (enumerate 0 fs)
                     @ [Button ''button'' (OnClick ''click'') ''Click me'',
                        P None (getFooterText props)]))"
    using footer by (simp add: render_shown render_part000_shown)
  have texts: "map textOf (map (\<lambda>(index, farm).
        P (Some (''react-basics-'' @ string_of_index index)) (name farm)) (enumerate 0 fs))
      = map name fs"
    by (rule keyed_paragraph_texts)
  have "show_p props \<noteq> Some False \<longrightarrow>
        (\<exists>els els'. MyFunctionComponent props (Some fs) = Inr (Some els)
              \<and> MyFunctionComponent_part000 props (Some fs) = Inr (Some els')
              \<and> last els = P None (getFooterText props)
              \<and> last els' = P None (getFooterText props)
              \<and> map textOf (butlast els) = map name fs
              \<and> map textOf (butlast (butlast els')) = map name fs)"
    using shown texts by (simp add: butlast_append comp_def)
  with footer shown show ?thesis
    by (simp add: render_null_iff render_part000_null_iff)
qed

theorem copies_agree_witness:
  "show_p index_props \<noteq> Some False
   \<and> MyFunctionComponent index_props (Some [\<lparr>name = ''farm2'', farm_id = 2, location = None\<rparr>]) =
       Inr (Some [P None ''farm2'', P None ''This is the footer''])
   \<and> MyFunctionComponent_part000 index_props
        (Some [\<lparr>name = ''farm2'', farm_id = 2, location = None\<rparr>]) =
       Inr (Some [P (Some ''react-basics-0'') ''farm2'',
                  Button ''button'' (OnClick ''click'') ''Click me'',
                  P None ''This is the footer''])"
proof -
  have "show_p index_props \<noteq> Some False"
    by (simp add: index_props_def)
  moreover have "string_of_index 0 = ''0''"
    by code_simp
  ultimately show ?thesis
    using copies_agree [where props = index_props and cell = None
        and fs = "[\<lparr>name = ''farm2'', farm_id = 2, location = None\<rparr>]"]
    by (simp add: index_props_def getFooterText_def isNonEmptyString_def del: string_of_index.simps)
qed

section \<open>The remote call and the fetch\<close>

text \<open>
  C5. For every url the remote call resolves, never rejects, and resolves to the list of
  the one farm \<^verbatim>\<open>{name: 'farm2', id: 2}\<close>: its value is never undefined and is the same
  for every url.
\<close>

theorem azureFunctionCall_fixed:
  "fst (azureFunctionCall u con) =
     Resolved (Some [\<lparr>name = ''farm2'', farm_id = 2, location = None\<rparr>])
   \<and> fst (azureFunctionCall u con) \<noteq> Resolved None
   \<and> (\<forall>e. fst (azureFunctionCall u con) \<noteq> Rejected e)
   \<and> fst (azureFunctionCall u con) = fst (azureFunctionCall u' con')"
  by (simp add: azureFunctionCall_def)

lemma farms_resume:
  "farms (fetchImportantData_resume (Resolved r) c) =
     Some (case r of None \<Rightarrow> [] | Some batch \<Rightarrow> batch)"
  by (simp add: fetchImportantData_resume_def nullish_def setFarms_def split: option.split)

lemma farms_resume_defined:
  "farms c \<noteq> None \<Longrightarrow> farms (fetchImportantData_resume pr c) \<noteq> None"
  by (cases pr)
    (simp_all add: fetchImportantData_resume_def nullish_def setFarms_def split: option.split)

lemma pending_resume: "pending (fetchImportantData_resume pr c) = pending c"
  by (cases pr) (simp_all add: fetchImportantData_resume_def setFarms_def)

lemma farms_start: "farms (fetchImportantData_start call u c) = farms c"
  by (simp add: fetchImportantData_start_def split: prod.split)

lemma pending_start:
  "pending (fetchImportantData_start call u c) = pending c @ [fst (call u (console c))]"
  by (simp add: fetchImportantData_start_def split: prod.split)

lemma farms_fetchFarms:
  "farms (fetchFarms c) = Some [\<lparr>name = ''farm1'', farm_id = 1, location = None\<rparr>]"
  by (simp add: fetchFarms_def setFarms_def)

lemma run_Nil: "run call [] c = c"
  by (simp add: run_def)

lemma run_Cons: "run call (ev # evs) c = run call evs (step call c ev)"
  by (simp add: run_def)

lemma farms_settle:
  "i < length (pending c) \<Longrightarrow> pending c ! i = Resolved r \<Longrightarrow>
   farms (settle i c) = Some (case r of None \<Rightarrow> [] | Some batch \<Rightarrow> batch)"
  by (simp add: settle_def farms_resume)

lemma settle_started:
  "settle (length (pending c)) (fetchImportantData_start call u c) = fetchImportantData call u c"
  by (simp add: settle_def fetchImportantData_start_def fetchImportantData_def
      fetchImportantData_resume_def setFarms_def Let_def split: prod.split promise.split)

lemma awaitsFarm2_start:
  "awaitsFarm2 c \<Longrightarrow> awaitsFarm2 (fetchImportantData_start azureFunctionCall u c)"
  by (simp add: awaitsFarm2_def fetchImportantData_start_def azureFunctionCall_def)

lemma awaitsFarm2_fetchFarms: "awaitsFarm2 (fetchFarms c) = awaitsFarm2 c"
  by (simp add: awaitsFarm2_def fetchFarms_def setFarms_def)

lemma awaitsFarm2_settle: "awaitsFarm2 c \<Longrightarrow> awaitsFarm2 (settle i c)"
proof (cases "i < length (pending c)")
  case False
  assume "awaitsFarm2 c"
  with False show ?thesis by (simp add: settle_def)
next
  case True
  assume "awaitsFarm2 c"
  then have all: "\<forall>pr \<in> set (pending c). pr = Resolved (Some [\<lparr>name = ''farm2'', farm_id = 2, location = None\<rparr>])"
    by (simp add: awaitsFarm2_def list_all_iff)
  have "set (take i (pending c) @ drop (Suc i) (pending c)) \<subseteq> set (pending c)"
    using set_take_subset [of i "pending c"] set_drop_subset [of "Suc i" "pending c"]
    by auto
  with all have "\<forall>pr \<in> set (take i (pending c) @ drop (Suc i) (pending c)).
      pr = Resolved (Some [\<lparr>name = ''farm2'', farm_id = 2, location = None\<rparr>])"
    by blast
  with True show ?thesis
    by (simp add: awaitsFarm2_def list_all_iff settle_def pending_resume)
qed

lemma awaitsFarm2_step:
  "awaitsFarm2 c \<Longrightarrow> awaitsFarm2 (step azureFunctionCall c ev)"
proof (cases ev)
  case (Render props)
  assume a: "awaitsFarm2 c"
  have "awaitsFarm2 (commitEffects azureFunctionCall props c)
      = awaitsFarm2 (if depsChanged (fetchDataDeps c) [url props]
          then fetchImportantData_start azureFunctionCall (url props)
                 (if depsChanged (fetchFarmsDeps c) [] then fetchFarms c else c)
          else (if depsChanged (fetchFarmsDeps c) [] then fetchFarms c else c))"
    by (simp add: awaitsFarm2_def commitEffects_def Let_def)
  with a Render show ?thesis
    by (simp add: awaitsFarm2_start awaitsFarm2_fetchFarms)
next
  case (Remount props)
  assume "awaitsFarm2 c"
  with Remount show ?thesis
    by (simp add: strictEffects_def awaitsFarm2_start awaitsFarm2_fetchFarms)
next
  case (Settle i)
  assume "awaitsFarm2 c"
  with Settle show ?thesis
    by (simp add: awaitsFarm2_settle)
qed

lemma awaitsFarm2_run:
  "awaitsFarm2 c \<Longrightarrow> awaitsFarm2 (run azureFunctionCall evs c)"
proof (induction evs arbitrary: c)
  case Nil
  then show ?case by (simp add: run_Nil)
next
  case (Cons ev evs)
  from Cons.prems have "awaitsFarm2 (step azureFunctionCall c ev)"
    by (rule awaitsFarm2_step)
  then have "awaitsFarm2 (run azureFunctionCall evs (step azureFunctionCall c ev))"
    by (rule Cons.IH)
  then show ?case by (simp add: run_Cons)
qed

lemma settle_own_remote:
  assumes "i < length (pending (run azureFunctionCall evs initialComponent))"
  shows "farms (settle i (run azureFunctionCall evs initialComponent)) = Some [\<lparr>name = ''farm2'', farm_id = 2, location = None\<rparr>]"
proof -
  let ?c = "run azureFunctionCall evs initialComponent"
  have "awaitsFarm2 initialComponent"
    by (simp add: awaitsFarm2_def initialComponent_def)
  then have "awaitsFarm2 ?c"
    by (rule awaitsFarm2_run)
  with assms have "pending ?c ! i = Resolved (Some [\<lparr>name = ''farm2'', farm_id = 2, location = None\<rparr>])"
    by (simp add: awaitsFarm2_def list_all_length)
  with assms have "farms (settle i ?c) = Some (case Some [\<lparr>name = ''farm2'', farm_id = 2, location = None\<rparr>] of None \<Rightarrow> [] | Some batch \<Rightarrow> batch)"
    by (rule farms_settle)
  then show ?thesis by simp
qed

text \<open>
  C3. When a call of \<^verbatim>\<open>fetchImportantData(url)\<close> whose remote call resolved to \<open>r\<close>
  has completed, the state is the batch \<open>r\<close>, or the empty list if \<open>r\<close> is
  undefined, whatever the list was before: nothing of it is kept, and the render then
  shows the farms of that batch and no other. The same holds in the life of the
  component, where other calls may be suspended and may resume in any order: when any
  suspended call resumes, the state and the farms displayed are its batch. With the
  component's own remote function every fetch returns the same batch, so after any
  fetch has completed, in any order, the farms displayed are the result of the most
  recent fetch.
\<close>

theorem fetch_replaces_farms:
  "(fst (call u (console c)) = Resolved r \<longrightarrow>
      farms (fetchImportantData call u c) = Some (case r of None \<Rightarrow> [] | Some batch \<Rightarrow> batch)
      \<and> farms (settle (length (pending c)) (fetchImportantData_start call u c)) = Some (case r of None \<Rightarrow> [] | Some batch \<Rightarrow> batch)
      \<and> (show_p props \<noteq> Some False \<longrightarrow>
           MyFunctionComponent props (farms (fetchImportantData call u c)) =
             Inr (Some (map (\<lambda>farm. P None (name farm)) (case r of None \<Rightarrow> [] | Some batch \<Rightarrow> batch)
                        @ [P None (getFooterText props)]))))
   \<and> (i < length (pending c) \<and> pending c ! i = Resolved r \<longrightarrow>
      farms (settle i c) = Some (case r of None \<Rightarrow> [] | Some batch \<Rightarrow> batch)
      \<and> (show_p props \<noteq> Some False \<longrightarrow>
           MyFunctionComponent props (farms (settle i c)) =
             Inr (Some (map (\<lambda>farm. P None (name farm)) (case r of None \<Rightarrow> [] | Some batch \<Rightarrow> batch)
                        @ [P None (getFooterText props)]))))
   \<and> (j < length (pending (run azureFunctionCall evs initialComponent)) \<longrightarrow>
      farms (settle j (run azureFunctionCall evs initialComponent)) = Some [\<lparr>name = ''farm2'', farm_id = 2, location = None\<rparr>]
      \<and> fst (azureFunctionCall u' con') = Resolved (Some [\<lparr>name = ''farm2'', farm_id = 2, location = None\<rparr>])
      \<and> (show_p props \<noteq> Some False \<longrightarrow>
           MyFunctionComponent props (farms (settle j (run azureFunctionCall evs initialComponent)))
             = Inr (Some [P None ''farm2'', P None (getFooterText props)])))"
proof -
  have whole: "fst (call u (console c)) = Resolved r \<Longrightarrow>
      farms (fetchImportantData call u c) = Some (case r of None \<Rightarrow> [] | Some batch \<Rightarrow> batch)"
  proof (cases "call u (console c)")
    case (Pair pr con)
    assume "fst (call u (console c)) = Resolved r"
    with Pair have "pr = Resolved r" by simp
    with Pair show ?thesis
      by (simp add: fetchImportantData_def farms_resume)
  qed
  have first: "fst (call u (console c)) = Resolved r \<longrightarrow>
      farms (fetchImportantData call u c) = Some (case r of None \<Rightarrow> [] | Some batch \<Rightarrow> batch)
      \<and> farms (settle (length (pending c)) (fetchImportantData_start call u c)) = Some (case r of None \<Rightarrow> [] | Some batch \<Rightarrow> batch)
      \<and> (show_p props \<noteq> Some False \<longrightarrow>
           MyFunctionComponent props (farms (fetchImportantData call u c)) =
             Inr (Some (map (\<lambda>farm. P None (name farm)) (case r of None \<Rightarrow> [] | Some batch \<Rightarrow> batch)
                        @ [P None (getFooterText props)])))"
    using whole by (simp add: settle_started render_shown)
  have second: "i < length (pending c) \<and> pending c ! i = Resolved r \<longrightarrow>
      farms (settle i c) = Some (case r of None \<Rightarrow> [] | Some batch \<Rightarrow> batch)
      \<and> (show_p props \<noteq> Some False \<longrightarrow>
           MyFunctionComponent props (farms (settle i c)) =
             Inr (Some (map (\<lambda>farm. P None (name farm)) (case r of None \<Rightarrow> [] | Some batch \<Rightarrow> batch)
                        @ [P None (getFooterText props)])))"
    using farms_settle [of i c r] by (simp add: render_shown)
  have third: "j < length (pending (run azureFunctionCall evs initialComponent)) \<longrightarrow>
      farms (settle j (run azureFunctionCall evs initialComponent)) = Some [\<lparr>name = ''farm2'', farm_id = 2, location = None\<rparr>]
      \<and> fst (azureFunctionCall u' con') = Resolved (Some [\<lparr>name = ''farm2'', farm_id = 2, location = None\<rparr>])
      \<and> (show_p props \<noteq> Some False \<longrightarrow>
           MyFunctionComponent props (farms (settle j (run azureFunctionCall evs initialComponent)))
             = Inr (Some [P None ''farm2'', P None (getFooterText props)]))"
    using settle_own_remote [of j evs]
    by (simp add: render_shown azureFunctionCall_def)
  from first second third show ?thesis
    by blast
qed

theorem fetch_replaces_farms_witness:
  "fst (azureFunctionCall ''www.bing.com''
         (console (mount Production azureFunctionCall index_props))) = Resolved (Some [\<lparr>name = ''farm2'', farm_id = 2, location = None\<rparr>])
   \<and> farms (mount Production azureFunctionCall index_props) = Some [\<lparr>name = ''farm1'', farm_id = 1, location = None\<rparr>]
   \<and> farms (fetchImportantData azureFunctionCall ''www.bing.com''
              (mount Production azureFunctionCall index_props)) = Some [\<lparr>name = ''farm2'', farm_id = 2, location = None\<rparr>]
   \<and> show_p index_props \<noteq> Some False
   \<and> MyFunctionComponent index_props
        (farms (fetchImportantData azureFunctionCall ''www.bing.com''
                  (mount Production azureFunctionCall index_props))) =
       Inr (Some [P None ''farm2'', P None ''This is the footer''])
   \<and> 0 < length (pending (mount Production azureFunctionCall index_props))
   \<and> pending (mount Production azureFunctionCall index_props) ! 0 = Resolved (Some [\<lparr>name = ''farm2'', farm_id = 2, location = None\<rparr>])
   \<and> farms (settle 0 (mount Production azureFunctionCall index_props)) = Some [\<lparr>name = ''farm2'', farm_id = 2, location = None\<rparr>]
   \<and> 1 < length (pending (run azureFunctionCall [Render index_props, Remount index_props]
                           initialComponent))
   \<and> farms (settle 1 (run azureFunctionCall [Render index_props, Remount index_props]
                        initialComponent)) = Some [\<lparr>name = ''farm2'', farm_id = 2, location = None\<rparr>]"
  using fetch_replaces_farms [where call = azureFunctionCall and u = "''www.bing.com''"
      and c = "mount Production azureFunctionCall index_props"
      and r = "Some [\<lparr>name = ''farm2'', farm_id = 2, location = None\<rparr>]" and props = index_props and i = 0
      and j = 1 and evs = "[Render index_props, Remount index_props]"]
  by (simp add: azureFunctionCall_def mount_def commitEffects_def depsChanged_def
      initialComponent_def fetchFarms_def setFarms_def fetchImportantData_start_def
      fetchImportantData_def fetchImportantData_resume_def nullish_def settle_def
      strictEffects_def run_def MyFunctionComponent_def getFooterText_def
      isNonEmptyString_def index_props_def)

text \<open>
  C4. If the remote call resolves to undefined, \<^verbatim>\<open>fetchImportantData\<close> calls the setter
  with the empty list: the state is neither left as it was nor is anything thrown.
\<close>

theorem undefined_gives_empty:
  assumes "fst (call u (console c)) = Resolved None"
  shows "farms (fetchImportantData call u c) = Some []
    \<and> setFarmsCalls (fetchImportantData call u c) = Suc (setFarmsCalls c)"
proof (cases "call u (console c)")
  case (Pair pr con)
  with assms have "pr = Resolved None" by simp
  with Pair show ?thesis
    by (simp add: fetchImportantData_def fetchImportantData_resume_def nullish_def setFarms_def)
qed

theorem undefined_gives_empty_witness:
  "fst ((\<lambda>u con. (Resolved None, con)) ''www.google.com'' (console (fetchFarms initialComponent)))
     = Resolved None
   \<and> farms (fetchFarms initialComponent) =
       Some [\<lparr>name = ''farm1'', farm_id = 1, location = None\<rparr>]
   \<and> farms (fetchImportantData (\<lambda>u con. (Resolved None, con)) ''www.google.com''
              (fetchFarms initialComponent)) = Some []"
  using undefined_gives_empty [of "\<lambda>u con. (Resolved None, con)" "''www.google.com''"
      "fetchFarms initialComponent"]
  by (simp add: fetchFarms_def setFarms_def initialComponent_def)

section \<open>The state is always a list\<close>

lemma farms_commit_defined:
  "farms c \<noteq> None \<Longrightarrow> farms (commitEffects call props c) \<noteq> None"
  by (simp add: commitEffects_def Let_def farms_start farms_fetchFarms)

lemma farms_strict_defined:
  "farms (strictEffects call props c) \<noteq> None"
  by (simp add: strictEffects_def farms_start farms_fetchFarms)

lemma farms_settle_defined:
  "farms c \<noteq> None \<Longrightarrow> farms (settle i c) \<noteq> None"
proof (cases "i < length (pending c)")
  case True
  assume "farms c \<noteq> None"
  then have "farms (c\<lparr>pending := take i (pending c) @ drop (Suc i) (pending c)\<rparr>) \<noteq> None"
    by simp
  then have "farms (fetchImportantData_resume (pending c ! i)
      (c\<lparr>pending := take i (pending c) @ drop (Suc i) (pending c)\<rparr>)) \<noteq> None"
    by (rule farms_resume_defined)
  with True show ?thesis by (simp add: settle_def)
next
  case False
  assume "farms c \<noteq> None"
  with False show ?thesis by (simp add: settle_def)
qed

lemma farms_step_defined:
  "farms c \<noteq> None \<Longrightarrow> farms (step call c ev) \<noteq> None"
  by (cases ev) (simp_all add: farms_commit_defined farms_strict_defined farms_settle_defined)

lemma farms_run_defined:
  "farms c \<noteq> None \<Longrightarrow> farms (run call evs c) \<noteq> None"
  unfolding run_def
proof (induction evs arbitrary: c)
  case Nil
  then show ?case by simp
next
  case (Cons ev evs)
  from Cons.prems have "farms (step call c ev) \<noteq> None"
    by (rule farms_step_defined)
  then have "farms (foldl (step call) (step call c ev) evs) \<noteq> None"
    by (rule Cons.IH)
  then show ?case by simp
qed

text \<open>
  C9. The state starts as the empty list, and after any sequence of renders, repeated
  effects and resumed calls, in any order and with any remote function (one that
  resolves to undefined or rejects as well), it is a list and never undefined:
  \<open>fetchFarms\<close> stores a list and the \<^verbatim>\<open>?? []\<close> of \<^verbatim>\<open>fetchImportantData\<close> turns an
  undefined result into the empty list. So \<^verbatim>\<open>farms.map\<close> in the render never throws.
\<close>

theorem farms_always_list:
  "farms initialComponent = Some []
   \<and> (\<exists>fs. farms (run call evs initialComponent) = Some fs)
   \<and> MyFunctionComponent props (farms (run call evs initialComponent)) \<noteq> Inl TypeError"
proof -
  have "farms initialComponent \<noteq> None"
    by (simp add: initialComponent_def)
  then have "farms (run call evs initialComponent) \<noteq> None"
    by (rule farms_run_defined)
  then show ?thesis
    by (auto simp: render_defined initialComponent_def)
qed

section \<open>The label\<close>

lemma showsText_shown:
  "showsText s (Inr (Some els)) \<longleftrightarrow> (\<exists>el \<in> set els. sublist s (textOf el))"
  by (simp add: showsText_def list_ex_iff)

text \<open>
  C8, as stated: when \<^verbatim>\<open>show\<close> is true the output includes the text of the prop
  \<^verbatim>\<open>label\<close>. The component never reads \<^verbatim>\<open>label\<close>: with the props of the entry
  point and \<^verbatim>\<open>show\<close> true, no element of the output shows the label.
\<close>

theorem label_counterexample:
  "show_p (index_props\<lparr>show_p := Some True\<rparr>) = Some True
   \<and> \<not> showsText (label (index_props\<lparr>show_p := Some True\<rparr>))
         (MyFunctionComponent (index_props\<lparr>show_p := Some True\<rparr>)
            (Some [\<lparr>name = ''farm2'', farm_id = 2, location = None\<rparr>]))"
  by code_simp

text \<open>
  C8, amended: the output is the same for every value of the prop \<^verbatim>\<open>label\<close>, and a
  text shown by an element of the output is part of the name of a farm or of the footer
  text; the label is not rendered.
\<close>

theorem label_not_rendered:
  "MyFunctionComponent (props\<lparr>label := l\<rparr>) cell = MyFunctionComponent props cell
   \<and> (showsText s (MyFunctionComponent props (Some fs)) \<longrightarrow>
        (\<exists>farm \<in> set fs. sublist s (name farm)) \<or> sublist s (getFooterText props))"
proof
  have "getFooterText (props\<lparr>label := l\<rparr>) = getFooterText props"
    by (simp add: getFooterText_def)
  then show "MyFunctionComponent (props\<lparr>label := l\<rparr>) cell = MyFunctionComponent props cell"
    by (cases cell) (simp_all add: MyFunctionComponent_def)
next
  show "showsText s (MyFunctionComponent props (Some fs)) \<longrightarrow>
        (\<exists>farm \<in> set fs. sublist s (name farm)) \<or> sublist s (getFooterText props)"
  proof (cases "show_p props = Some False")
    case True
    then show ?thesis
      by (simp add: render_hidden showsText_def)
  next
    case False
    then show ?thesis
      by (auto simp: render_shown showsText_shown)
  qed
qed

theorem label_not_rendered_witness:
  "showsText ''farm2''
     (MyFunctionComponent (index_props\<lparr>show_p := Some True\<rparr>)
        (Some [\<lparr>name = ''farm2'', farm_id = 2, location = None\<rparr>]))
   \<and> sublist ''farm2'' (name \<lparr>name = ''farm2'', farm_id = 2, location = None\<rparr>)
   \<and> MyFunctionComponent (index_props\<lparr>show_p := Some True, label := ''another label''\<rparr>)
        (Some [\<lparr>name = ''farm2'', farm_id = 2, location = None\<rparr>]) =
      MyFunctionComponent (index_props\<lparr>show_p := Some True\<rparr>)
        (Some [\<lparr>name = ''farm2'', farm_id = 2, location = None\<rparr>])"
  using label_not_rendered [where props = "index_props\<lparr>show_p := Some True\<rparr>"
      and l = "''another label''"
      and cell = "Some [\<lparr>name = ''farm2'', farm_id = 2, location = None\<rparr>]"
      and s = "''farm2''"
      and fs = "[\<lparr>name = ''farm2'', farm_id = 2, location = None\<rparr>]"]
  by (simp add: MyFunctionComponent_def showsText_def getFooterText_def)

section \<open>The life of the state\<close>

lemma deps_settle:
  "fetchFarmsDeps (settle i c) = fetchFarmsDeps c \<and> fetchDataDeps (settle i c) = fetchDataDeps c"
  by (cases "pending c ! i")
    (simp_all add: settle_def fetchImportantData_resume_def setFarms_def)

lemma deps_strict:
  "fetchFarmsDeps (strictEffects call props c) = fetchFarmsDeps c
   \<and> fetchDataDeps (strictEffects call props c) = fetchDataDeps c"
  by (simp add: strictEffects_def fetchImportantData_start_def fetchFarms_def setFarms_def
      split: prod.split)

lemma deps_commit:
  "fetchFarmsDeps (commitEffects call props c) = Some []
   \<and> fetchDataDeps (commitEffects call props c) = Some [url props]"
  by (simp add: commitEffects_def Let_def)

lemma deps_run:
  "fetchFarmsDeps c = Some [] \<Longrightarrow> fetchDataDeps c = Some [u] \<Longrightarrow>
   fetchFarmsDeps (run call evs c) = Some [] \<and> fetchDataDeps (run call evs c) = Some [lastUrl u evs]"
proof (induction evs arbitrary: c u)
  case Nil
  then show ?case by (simp add: run_Nil)
next
  case (Cons ev evs)
  show ?case
  proof (cases ev)
    case (Render props)
    then show ?thesis
      using Cons.IH [of "commitEffects call props c" "url props"]
      by (simp add: run_Cons deps_commit)
  next
    case (Remount props)
    then show ?thesis
      using Cons.IH [of "strictEffects call props c" u] Cons.prems
      by (simp add: run_Cons deps_strict)
  next
    case (Settle i)
    then show ?thesis
      using Cons.IH [of "settle i c" u] Cons.prems
      by (simp add: run_Cons deps_settle)
  qed
qed

lemma deps_mounted:
  "fetchFarmsDeps (run call evs (mount b call p)) = Some []
   \<and> fetchDataDeps (run call evs (mount b call p)) = Some [lastUrl (url p) evs]"
  by (rule deps_run; cases b) (simp_all add: mount_def deps_commit deps_strict)

lemma mount_production:
  "farms (mount Production call p) = Some [\<lparr>name = ''farm1'', farm_id = 1, location = None\<rparr>]
   \<and> setFarmsCalls (mount Production call p) = 1
   \<and> pending (mount Production call p) = [fst (call (url p) [])]"
  by (simp add: mount_def commitEffects_def depsChanged_def initialComponent_def fetchFarms_def
      setFarms_def fetchImportantData_start_def split: prod.split)

lemma mount_development:
  "farms (mount Development call p) = Some [\<lparr>name = ''farm1'', farm_id = 1, location = None\<rparr>]
   \<and> setFarmsCalls (mount Development call p) = 2
   \<and> pending (mount Development call p) =
       [fst (call (url p) []), fst (call (url p) (snd (call (url p) [])))]"
  by (simp add: mount_def commitEffects_def depsChanged_def initialComponent_def fetchFarms_def
      setFarms_def fetchImportantData_start_def strictEffects_def case_prod_beta)

lemma commit_same_url:
  "fetchFarmsDeps c = Some [] \<Longrightarrow> fetchDataDeps c = Some [url p'] \<Longrightarrow>
   commitEffects call p' c = c"
  by (simp add: commitEffects_def depsChanged_def)

lemma commit_new_url:
  "fetchFarmsDeps c = Some [] \<Longrightarrow> fetchDataDeps c = Some [u] \<Longrightarrow> url p' \<noteq> u \<Longrightarrow>
   farms (commitEffects call p' c) = farms c
   \<and> setFarmsCalls (commitEffects call p' c) = setFarmsCalls c
   \<and> pending (commitEffects call p' c) = pending c @ [fst (call (url p') (console c))]"
  by (simp add: commitEffects_def depsChanged_def fetchImportantData_start_def split: prod.split)

lemma settle_resolved:
  "i < length (pending c) \<Longrightarrow> pending c ! i = Resolved r \<Longrightarrow>
   farms (settle i c) = Some (case r of None \<Rightarrow> [] | Some batch \<Rightarrow> batch)
   \<and> setFarmsCalls (settle i c) = Suc (setFarmsCalls c)
   \<and> pending (settle i c) = take i (pending c) @ drop (Suc i) (pending c)"
  by (simp add: settle_def fetchImportantData_resume_def nullish_def setFarms_def
      split: option.split)

text \<open>
  C6, as stated: the state is set exactly once on mount and then only when the url
  changes. The effect with the dependencies \<^verbatim>\<open>[url]\<close> runs after the first commit as
  well, so a component that is mounted and whose url never changes has its state set
  more than once: in a production build twice, by \<open>fetchFarms\<close> and by the fetch started
  at mount when it completes; in a development build four times, the effects of the
  mount being repeated.
\<close>

theorem lifecycle_counterexample:
  "setFarmsCalls (run azureFunctionCall [Settle 0]
      (mount Production azureFunctionCall index_props)) = 2
   \<and> farms (run azureFunctionCall [Settle 0]
      (mount Production azureFunctionCall index_props)) = Some [\<lparr>name = ''farm2'', farm_id = 2, location = None\<rparr>]
   \<and> \<not> setFarmsCalls (run azureFunctionCall [Settle 0]
      (mount Production azureFunctionCall index_props)) = 1
   \<and> setFarmsCalls (run azureFunctionCall [Settle 0, Settle 0]
      (mount Development azureFunctionCall index_props)) = 4
   \<and> run azureFunctionCall [Render index_props, Settle 0] initialComponent =
      run azureFunctionCall [Settle 0] (mount Production azureFunctionCall index_props)"
  by (simp add: run_def mount_def commitEffects_def depsChanged_def initialComponent_def
      fetchFarms_def setFarms_def fetchImportantData_start_def azureFunctionCall_def
      settle_def strictEffects_def fetchImportantData_resume_def nullish_def)

text \<open>
  C6, amended: the state starts as the empty list. In a production build the commit of
  the mount sets it once, to the list of \<^verbatim>\<open>farm1\<close> by \<open>fetchFarms\<close>, and starts one
  fetch; in a development build, where the \<^verbatim>\<open>StrictMode\<close> of the entry point repeats
  the effects of the mount, \<open>fetchFarms\<close> sets it twice and two fetches are started.
  After the mount, in either build, a render with the url of the previous render changes
  nothing, and a render with another url sets nothing itself (\<open>fetchFarms\<close> does not run
  again) and starts one new fetch. A fetch that resolves, those started at mount
  included, sets the state once when it resumes, to the batch fetched.
\<close>

theorem lifecycle:
  "farms initialComponent = Some [] \<and> setFarmsCalls initialComponent = 0
   \<and> farms (mount Production call p) = Some [\<lparr>name = ''farm1'', farm_id = 1, location = None\<rparr>]
   \<and> setFarmsCalls (mount Production call p) = 1
   \<and> pending (mount Production call p) = [fst (call (url p) [])]
   \<and> farms (mount Development call p) = Some [\<lparr>name = ''farm1'', farm_id = 1, location = None\<rparr>]
   \<and> setFarmsCalls (mount Development call p) = 2
   \<and> pending (mount Development call p) =
       [fst (call (url p) []), fst (call (url p) (snd (call (url p) [])))]
   \<and> (url p' = lastUrl (url p) evs \<longrightarrow>
        commitEffects call p' (run call evs (mount b call p)) = run call evs (mount b call p))
   \<and> (url p' \<noteq> lastUrl (url p) evs \<longrightarrow>
        farms (commitEffects call p' (run call evs (mount b call p)))
          = farms (run call evs (mount b call p))
        \<and> setFarmsCalls (commitEffects call p' (run call evs (mount b call p)))
          = setFarmsCalls (run call evs (mount b call p))
        \<and> pending (commitEffects call p' (run call evs (mount b call p)))
          = pending (run call evs (mount b call p))
            @ [fst (call (url p') (console (run call evs (mount b call p))))])
   \<and> (i < length (pending c) \<and> pending c ! i = Resolved r \<longrightarrow>
        farms (settle i c) = Some (case r of None \<Rightarrow> [] | Some batch \<Rightarrow> batch)
        \<and> setFarmsCalls (settle i c) = Suc (setFarmsCalls c)
        \<and> pending (settle i c) = take i (pending c) @ drop (Suc i) (pending c))"
proof -
  let ?c = "run call evs (mount b call p)"
  have init: "farms initialComponent = Some [] \<and> setFarmsCalls initialComponent = 0"
    by (simp add: initialComponent_def)
  have deps: "fetchFarmsDeps ?c = Some []" "fetchDataDeps ?c = Some [lastUrl (url p) evs]"
    using deps_mounted [of call evs b p] by simp_all
  have same: "url p' = lastUrl (url p) evs \<longrightarrow> commitEffects call p' ?c = ?c"
    using deps by (simp add: commit_same_url)
  have new: "url p' \<noteq> lastUrl (url p) evs \<longrightarrow>
        farms (commitEffects call p' ?c) = farms ?c
        \<and> setFarmsCalls (commitEffects call p' ?c) = setFarmsCalls ?c
        \<and> pending (commitEffects call p' ?c)
            = pending ?c @ [fst (call (url p') (console ?c))]"
    using deps commit_new_url [of ?c "lastUrl (url p) evs" p' call] by simp
  have resume: "i < length (pending c) \<and> pending c ! i = Resolved r \<longrightarrow>
        farms (settle i c) = Some (case r of None \<Rightarrow> [] | Some batch \<Rightarrow> batch)
        \<and> setFarmsCalls (settle i c) = Suc (setFarmsCalls c)
        \<and> pending (settle i c) = take i (pending c) @ drop (Suc i) (pending c)"
    using settle_resolved [of i c r] by simp
  from init mount_production [of call p] mount_development [of call p] same new resume
  show ?thesis
    by simp
qed

theorem lifecycle_witness:
  "url (index_props\<lparr>url := ''www.bing.com''\<rparr>) \<noteq> lastUrl (url index_props) [Settle 0]
   \<and> pending (commitEffects azureFunctionCall (index_props\<lparr>url := ''www.bing.com''\<rparr>)
         (run azureFunctionCall [Settle 0] (mount Development azureFunctionCall index_props))) =
       [Resolved (Some [\<lparr>name = ''farm2'', farm_id = 2, location = None\<rparr>]), Resolved (Some [\<lparr>name = ''farm2'', farm_id = 2, location = None\<rparr>])]
   \<and> url index_props = lastUrl (url index_props) [Settle 0]
   \<and> commitEffects azureFunctionCall index_props
         (run azureFunctionCall [Settle 0] (mount Production azureFunctionCall index_props)) =
       run azureFunctionCall [Settle 0] (mount Production azureFunctionCall index_props)
   \<and> (0::nat) < length (pending (mount Production azureFunctionCall index_props))
   \<and> pending (mount Production azureFunctionCall index_props) ! 0 = Resolved (Some [\<lparr>name = ''farm2'', farm_id = 2, location = None\<rparr>])
   \<and> farms (settle 0 (mount Production azureFunctionCall index_props)) = Some [\<lparr>name = ''farm2'', farm_id = 2, location = None\<rparr>]
   \<and> setFarmsCalls (settle 0 (mount Production azureFunctionCall index_props)) = 2"
  using lifecycle [where call = azureFunctionCall and p = index_props and evs = "[Settle 0]"
      and b = Development and p' = "index_props\<lparr>url := ''www.bing.com''\<rparr>"
      and c = "mount Production azureFunctionCall index_props"
      and r = "Some [\<lparr>name = ''farm2'', farm_id = 2, location = None\<rparr>]" and i = 0]
    lifecycle [where call = azureFunctionCall and p = index_props and evs = "[Settle 0]"
      and b = Production and p' = index_props]
  by (simp add: run_def mount_def commitEffects_def depsChanged_def initialComponent_def
      fetchFarms_def setFarms_def fetchImportantData_start_def azureFunctionCall_def
      settle_def strictEffects_def fetchImportantData_resume_def nullish_def index_props_def)

end
